theory Spec2Isabelle
  imports Complex_Main
begin

section \<open>The tool-calling loop of skillset\_scripts/test-openai.py\<close>

subsection \<open>Data: tool calls, messages, completions\<close>

text \<open>
  A tool call as the completion API returns it: \<^verbatim>\<open>tool_call.id\<close>,
  \<^verbatim>\<open>tool_call.function.name\<close> and \<^verbatim>\<open>tool_call.function.arguments\<close>
  (a string that is meant to hold JSON).
\<close>

record function_call =
  name :: string
  arguments :: string

record tool_call =
  call_id :: string
  func :: function_call

text \<open>
  An entry of the \<^verbatim>\<open>messages\<close> list. The script keeps plain dicts; a key that a
  dict does not have is \<open>None\<close> here. The roles are the strings of the source.
\<close>

record message =
  role :: string
  content :: "string option"
  tool_calls :: "tool_call list option"
  tool_call_id :: "string option"

text \<open>
  \<^verbatim>\<open>choice.message\<close> of a completion (its role is the literal "assistant" in the
  client library's type) and the choice itself with its \<^verbatim>\<open>finish_reason\<close>.
\<close>

record chat_message =
  msg_content :: "string option"
  msg_tool_calls :: "tool_call list option"

record choice =
  choice_message :: chat_message
  finish_reason :: "string option"

record chat_completion =
  choices :: "choice list"

text \<open>
  What the script calls and does not define: the completion request (for the fixed model,
  tool catalogue and seed it is a function of the message list; \<open>None\<close> when the call
  raises), \<^verbatim>\<open>json.loads\<close> (\<open>None\<close> when it raises) and \<^verbatim>\<open>json.dumps\<close> on a
  dict of strings, given in insertion order.
\<close>

record 'j externals =
  create :: "message list \<Rightarrow> chat_completion option"
  json_loads :: "string \<Rightarrow> 'j option"
  json_dumps :: "(string \<times> string) list \<Rightarrow> string"

text \<open>How a run of the script ends: \<^verbatim>\<open>main\<close> returns, \<^verbatim>\<open>sys.exit(n)\<close>, or an
  exception nobody catches.\<close>

datatype outcome = Returned | SysExit int | Uncaught string

subsection \<open>Constants of the script\<close>

definition LLM_BLOCKED_BY_POLICY_PROMPT :: string where
  \<open>LLM_BLOCKED_BY_POLICY_PROMPT =
     [CHR 0x0A] @
     ''All tools with tag [TansivePolicy: true] are governed by Tansive policy.'' @
     [CHR 0x0A] @
     ''If any tool call with such tag returns an error containing "This operation is blocked by Tansive policy", you must respond to the user with:'' @
     [CHR 0x0A] @
     ''"I tried to use Skill: <tool-name> for <reason> but it was blocked by Tansive policy. Please contact the administrator of your Tansive system to obtain access." Do not attempt to bypass, hallucinate, or reroute the request. Respect the policy boundaries.'' @
     [CHR 0x0A]\<close>

definition question :: string where
  "question = ''What's the weather like in San Francisco?''"

text \<open>The initial \<^verbatim>\<open>messages\<close> list (lines 48 to 51).\<close>

definition initial_messages :: "message list" where
  "initial_messages =
     [\<lparr>role = ''system'', content = Some LLM_BLOCKED_BY_POLICY_PROMPT,
        tool_calls = None, tool_call_id = None\<rparr>,
      \<lparr>role = ''user'', content = Some question,
        tool_calls = None, tool_call_id = None\<rparr>]"

text \<open>The mock response (lines 87 to 91); the degree sign is the code point 0xB0.\<close>

definition mock_response :: "(string \<times> string) list" where
  "mock_response =
     [(''temperature'', ''72'' @ [CHR 0xB0] @ ''F''),
      (''condition'', ''Sunny''),
      (''humidity'', ''45%'')]"

subsection \<open>The body of the \<^verbatim>\<open>for\<close> loop: one tool call (lines 84 to 103)\<close>

text \<open>
  \<open>None\<close> is the \<^verbatim>\<open>except\<close> branch, which ends the process with
  \<^verbatim>\<open>sys.exit(1)\<close>; otherwise the tool-role message that is appended. The parsed
  arguments are bound and never read.
\<close>

definition run_tool_call :: "'j externals \<Rightarrow> tool_call \<Rightarrow> message option" where
  "run_tool_call ext tc =
     (case json_loads ext (arguments (func tc)) of
        None \<Rightarrow> None
      | Some tool_args \<Rightarrow>
          let tool_response = json_dumps ext mock_response
          in Some \<lparr>role = ''tool'', content = Some tool_response,
                   tool_calls = None, tool_call_id = Some (call_id tc)\<rparr>)"

subsection \<open>The \<^verbatim>\<open>for\<close> loop over the tool calls (line 83)\<close>

datatype flow = Continue "message list" | Stop outcome "message list"

primrec for_tool_calls :: "'j externals \<Rightarrow> tool_call list \<Rightarrow> message list \<Rightarrow> flow" where
  "for_tool_calls ext [] messages = Continue messages"
| "for_tool_calls ext (tc # tcs) messages =
     (case run_tool_call ext tc of
        None \<Rightarrow> Stop (SysExit 1) messages
      | Some m \<Rightarrow> for_tool_calls ext tcs (messages @ [m]))"

subsection \<open>The head of the \<^verbatim>\<open>while\<close> loop (lines 55 to 81)\<close>

text \<open>Python's truth value of an optional string and of an optional list.\<close>

definition truthy :: "'a list option \<Rightarrow> bool" where
  "truthy v = (case v of None \<Rightarrow> False | Some xs \<Rightarrow> xs \<noteq> [])"

text \<open>\<^verbatim>\<open>message.model_dump(exclude_unset=True)\<close>: the assistant's message as a dict.\<close>

definition model_dump :: "chat_message \<Rightarrow> message" where
  "model_dump m =
     \<lparr>role = ''assistant'', content = msg_content m,
      tool_calls = msg_tool_calls m, tool_call_id = None\<rparr>"

text \<open>
  The request, the two \<^verbatim>\<open>break\<close>s and the append of the assistant's message. The
  result is either the end of the run, or the message list with the assistant's message
  appended together with the tool calls the \<^verbatim>\<open>for\<close> loop is about to run.
\<close>

datatype head = Ended outcome | Calls "message list" "tool_call list"

definition loop_head :: "'j externals \<Rightarrow> message list \<Rightarrow> head" where
  "loop_head ext messages =
     (case create ext messages of
        None \<Rightarrow> Ended (SysExit 1)
      | Some response \<Rightarrow>
          (case choices response of
             [] \<Rightarrow> Ended (Uncaught ''IndexError'')
           | ch # _ \<Rightarrow>
               if truthy (finish_reason ch) \<and> finish_reason ch \<noteq> Some ''tool_calls''
               then Ended Returned
               else if \<not> truthy (msg_tool_calls (choice_message ch))
               then Ended Returned
               else (case msg_tool_calls (choice_message ch) of
                       None \<Rightarrow> Ended Returned
                     | Some tcs \<Rightarrow>
                         Calls (messages @ [model_dump (choice_message ch)]) tcs)))"

subsection \<open>One iteration and the \<^verbatim>\<open>while True\<close> loop (line 54)\<close>

definition loop_body :: "'j externals \<Rightarrow> message list \<Rightarrow> flow" where
  "loop_body ext messages =
     (case loop_head ext messages of
        Ended out \<Rightarrow> Stop out messages
      | Calls messages' tcs \<Rightarrow> for_tool_calls ext tcs messages')"

text \<open>
  The loop has no bound in the source, so it is a partial function: \<open>None\<close> is a run
  that never ends, \<open>Some (out, messages)\<close> a run that ends with \<open>out\<close> and the
  message list it has built.
\<close>

partial_function (option) main_loop ::
  "'j externals \<Rightarrow> message list \<Rightarrow> (outcome \<times> message list) option" where
  "main_loop ext messages =
     (case loop_body ext messages of
        Stop out messages' \<Rightarrow> Some (out, messages')
      | Continue messages' \<Rightarrow> main_loop ext messages')"

definition main :: "'j externals \<Rightarrow> (outcome \<times> message list) option" where
  "main ext = main_loop ext initial_messages"

subsection \<open>The same code as a transition system\<close>

text \<open>
  The control points of \<^verbatim>\<open>main\<close>: at the head of the \<^verbatim>\<open>while\<close> loop with the
  message list built so far; in the \<^verbatim>\<open>for\<close> loop with the message list and the tool
  calls still to run; and ended. One step runs the code between two control points, with
  the same \<open>loop_head\<close> and \<open>run_tool_call\<close> as above.
\<close>

datatype config =
    AtWhile "message list"
  | AtFor "message list" "tool_call list"
  | Halted outcome "message list"

fun step :: "'j externals \<Rightarrow> config \<Rightarrow> config" where
  "step ext (AtWhile messages) =
     (case loop_head ext messages of
        Ended out \<Rightarrow> Halted out messages
      | Calls messages' tcs \<Rightarrow> AtFor messages' tcs)"
| "step ext (AtFor messages []) = AtWhile messages"
| "step ext (AtFor messages (tc # tcs)) =
     (case run_tool_call ext tc of
        None \<Rightarrow> Halted (SysExit 1) messages
      | Some m \<Rightarrow> AtFor (messages @ [m]) tcs)"
| "step ext (Halted out messages) = Halted out messages"

inductive reachable :: "'j externals \<Rightarrow> config \<Rightarrow> bool" for ext :: "'j externals" where
  start: "reachable ext (AtWhile initial_messages)"
| after: "reachable ext c \<Longrightarrow> reachable ext (step ext c)"

fun messages_of :: "config \<Rightarrow> message list" where
  "messages_of (AtWhile messages) = messages"
| "messages_of (AtFor messages tcs) = messages"
| "messages_of (Halted out messages) = messages"

subsection \<open>Vocabulary of the properties\<close>

text \<open>The tool-role message the loop appends for a tool call whose arguments parse.\<close>

definition tool_result :: "'j externals \<Rightarrow> tool_call \<Rightarrow> message" where
  "tool_result ext tc =
     \<lparr>role = ''tool'', content = Some (json_dumps ext mock_response),
      tool_calls = None, tool_call_id = Some (call_id tc)\<rparr>"

definition parses :: "'j externals \<Rightarrow> tool_call \<Rightarrow> bool" where
  "parses ext tc = (json_loads ext (arguments (func tc)) \<noteq> None)"

text \<open>The ids of the tool calls an entry of the message list requests.\<close>

definition requested_ids :: "message \<Rightarrow> string list" where
  "requested_ids m = (case tool_calls m of None \<Rightarrow> [] | Some tcs \<Rightarrow> map call_id tcs)"

text \<open>
  \<open>tool_ids_ok ids ms\<close>: scanning \<open>ms\<close> from the left, where \<open>ids\<close> are the ids
  requested by the closest assistant message seen so far, every tool-role message
  carries one of the ids of the closest assistant message before it.
\<close>

fun tool_ids_ok :: "string list \<Rightarrow> message list \<Rightarrow> bool" where
  "tool_ids_ok ids [] = True"
| "tool_ids_ok ids (m # ms) =
     (if role m = ''assistant'' then tool_ids_ok (requested_ids m) ms
      else if role m = ''tool''
      then (case tool_call_id m of None \<Rightarrow> False | Some i \<Rightarrow> i \<in> set ids) \<and> tool_ids_ok ids ms
      else tool_ids_ok ids ms)"

text \<open>
  What holds inside the \<^verbatim>\<open>for\<close> loop: the message list ends with an assistant
  message followed by the tool-role messages of the calls already served, and the calls
  served and the calls still pending are together the tool calls of that message.
\<close>

definition for_inv :: "'j externals \<Rightarrow> config \<Rightarrow> bool" where
  "for_inv ext c =
     (case c of
        AtFor ms pending \<Rightarrow>
          (\<exists>pre a served. ms = pre @ a # map (tool_result ext) served \<and> role a = ''assistant'' \<and>
             tool_calls a = Some (served @ pending) \<and> tool_ids_ok [] pre)
      | _ \<Rightarrow> True)"

subsection \<open>Test doubles for the externals\<close>

text \<open>
  Used to run the definitions on concrete inputs. \<open>loads_double\<close> stands for
  \<^verbatim>\<open>json.loads\<close> on the three argument strings used below: the first two are JSON
  objects, the third is cut off in the middle and does not parse.
\<close>

definition sf_arguments :: string where
  \<open>sf_arguments = ''{"location": "San Francisco, CA"}''\<close>

definition paris_arguments :: string where
  \<open>paris_arguments = ''{"location": "Paris"}''\<close>

definition cut_arguments :: string where
  \<open>cut_arguments = ''{"location": "San Fr''\<close>

definition loads_double :: "string \<Rightarrow> string option" where
  "loads_double s = (if s = sf_arguments \<or> s = paris_arguments then Some s else None)"

definition dumps_double :: "(string \<times> string) list \<Rightarrow> string" where
  "dumps_double kvs = concat (map (\<lambda>(k, v). k @ ''='' @ v @ '';'') kvs)"

definition sf_call :: tool_call where
  "sf_call = \<lparr>call_id = ''call_1'', func = \<lparr>name = ''get_weather'', arguments = sf_arguments\<rparr>\<rparr>"

definition paris_call :: tool_call where
  "paris_call = \<lparr>call_id = ''call_2'', func = \<lparr>name = ''get_time'', arguments = paris_arguments\<rparr>\<rparr>"

definition cut_call :: tool_call where
  "cut_call = \<lparr>call_id = ''call_3'', func = \<lparr>name = ''get_weather'', arguments = cut_arguments\<rparr>\<rparr>"

text \<open>A completion with one choice.\<close>

definition completion :: "string option \<Rightarrow> tool_call list option \<Rightarrow> string option \<Rightarrow> chat_completion" where
  "completion c tcs fr =
     \<lparr>choices = [\<lparr>choice_message = \<lparr>msg_content = c, msg_tool_calls = tcs\<rparr>,
                  finish_reason = fr\<rparr>]\<rparr>"

text \<open>A model that answers every request with the same tool calls and finish reason.\<close>

definition constant_model :: "tool_call list \<Rightarrow> string option \<Rightarrow> string externals" where
  "constant_model tcs fr =
     \<lparr>create = (\<lambda>messages. Some (completion None (Some tcs) fr)),
      json_loads = loads_double, json_dumps = dumps_double\<rparr>"

text \<open>A model that requests the tool calls once, on the initial messages and with the
  given finish reason, and then gives a final answer.\<close>

definition one_turn_model :: "tool_call list \<Rightarrow> string option \<Rightarrow> string externals" where
  "one_turn_model tcs fr =
     \<lparr>create = (\<lambda>messages.
         if length messages = 2 then Some (completion None (Some tcs) fr)
         else Some (completion (Some ''It is sunny.'') None (Some ''stop''))),
      json_loads = loads_double, json_dumps = dumps_double\<rparr>"

section \<open>The SDK's exceptions (test\_scripts/tansive\_client/exceptions.py)\<close>

text \<open>The classes of the module and \<^verbatim>\<open>Exception\<close>, the base of the first.\<close>

datatype exception_class =
    Exception_class
  | TansiveError_class
  | TansiveConnectionError_class
  | TansiveTimeoutError_class
  | TansiveAPIError_class
  | TansiveRetryError_class
  | TansiveValidationError_class

text \<open>The base each \<^verbatim>\<open>class\<close> statement names; the chain is followed up to
  \<^verbatim>\<open>Exception\<close>.\<close>

fun base :: "exception_class \<Rightarrow> exception_class option" where
  "base Exception_class = None"
| "base TansiveError_class = Some Exception_class"
| "base TansiveConnectionError_class = Some TansiveError_class"
| "base TansiveTimeoutError_class = Some TansiveError_class"
| "base TansiveAPIError_class = Some TansiveError_class"
| "base TansiveRetryError_class = Some TansiveError_class"
| "base TansiveValidationError_class = Some TansiveError_class"

fun depth :: "exception_class \<Rightarrow> nat" where
  "depth Exception_class = 0"
| "depth TansiveError_class = 1"
| "depth c = 2"

text \<open>The method resolution order of a class (single inheritance: the chain of bases).\<close>

function mro :: "exception_class \<Rightarrow> exception_class list" where
  "mro c = c # (case base c of None \<Rightarrow> [] | Some b \<Rightarrow> mro b)"
  by pat_completeness auto
termination
proof (relation "measure depth")
  show "wf (measure depth)" by simp
next
  fix c b
  assume "base c = Some b"
  then show "(b, c) \<in> measure depth" by (cases c) auto
qed

declare mro.simps [simp del]

definition issubclass :: "exception_class \<Rightarrow> exception_class \<Rightarrow> bool" where
  "issubclass c d = (d \<in> set (mro c))"

text \<open>
  Instances. The first argument is the message handed to \<^verbatim>\<open>Exception.__init__\<close>;
  \<^verbatim>\<open>TansiveAPIError\<close> and \<^verbatim>\<open>TansiveRetryError\<close> carry the attributes their
  \<^verbatim>\<open>__init__\<close> sets. \<open>Exception\<close> stands for an exception that is not of the SDK.
\<close>

datatype exception =
    Exception string
  | TansiveError string
  | TansiveConnectionError string
  | TansiveTimeoutError string
  | TansiveAPIError string (status_code: "int option") (response_body: "string option")
  | TansiveRetryError string (last_error: "exception option")
  | TansiveValidationError string

fun class_of :: "exception \<Rightarrow> exception_class" where
  "class_of (Exception m) = Exception_class"
| "class_of (TansiveError m) = TansiveError_class"
| "class_of (TansiveConnectionError m) = TansiveConnectionError_class"
| "class_of (TansiveTimeoutError m) = TansiveTimeoutError_class"
| "class_of (TansiveAPIError m sc rb) = TansiveAPIError_class"
| "class_of (TansiveRetryError m le) = TansiveRetryError_class"
| "class_of (TansiveValidationError m) = TansiveValidationError_class"

text \<open>\<^verbatim>\<open>isinstance(e, c)\<close>, which is also whether \<^verbatim>\<open>except c\<close> catches \<open>e\<close>.\<close>

definition isinstance :: "exception \<Rightarrow> exception_class \<Rightarrow> bool" where
  "isinstance e c = issubclass (class_of e) c"

text \<open>A keyword argument with a default: left out at the call, or given.\<close>

datatype 'a argument = Omitted | Given 'a

fun or_default :: "'a argument \<Rightarrow> 'a \<Rightarrow> 'a" where
  "or_default Omitted d = d"
| "or_default (Given v) d = v"

text \<open>The two \<^verbatim>\<open>__init__\<close> methods, with their defaults \<^verbatim>\<open>None\<close>.\<close>

definition TansiveAPIError_init ::
  "string \<Rightarrow> int option argument \<Rightarrow> string option argument \<Rightarrow> exception" where
  "TansiveAPIError_init message sc rb =
     TansiveAPIError message (or_default sc None) (or_default rb None)"

definition TansiveRetryError_init :: "string \<Rightarrow> exception option argument \<Rightarrow> exception" where
  "TansiveRetryError_init message le = TansiveRetryError message (or_default le None)"

section \<open>The skill invoker\<close>

text \<open>
  The package imports \<^verbatim>\<open>TansiveClient\<close>, \<^verbatim>\<open>SkillInvocation\<close> and
  \<^verbatim>\<open>SkillResult\<close> from \<^verbatim>\<open>tansive_client/client.py\<close>, which is not among the
  sources. The invoker is therefore written from section 4.2 of the specification; it
  raises the exceptions of \<^verbatim>\<open>exceptions.py\<close> above.
\<close>

text \<open>Modelled from the spec: the kinds of failure that \<^verbatim>\<open>retryableKinds\<close> may
  hold (Connection, Timeout, APIStatus-5xx); the client module is missing.\<close>

datatype retryable_kind = Connection | Timeout | APIStatus5xx

text \<open>Modelled from the spec: \<^verbatim>\<open>RetryConfig\<close> with the fields of section 4.2; the
  client module is missing.\<close>

record retry_config =
  maxAttempts :: nat
  baseDelay :: real
  backoffMultiplier :: real
  perAttemptTimeout :: real
  retryableKinds :: "retryable_kind set"

text \<open>Modelled from the spec: \<^verbatim>\<open>SkillResult\<close> (the id of the tool call and the
  output); the client module is missing.\<close>

record skill_result =
  result_tool_call_id :: string
  skill_output :: string

text \<open>
  Modelled from the spec: the raw failure of one attempt, before it is classified; the
  client module is missing. The endpoint cannot be reached, the deadline of the attempt
  is exceeded, or the endpoint is reached and answers with an error status (message,
  status code, response body).
\<close>

datatype raw_failure =
    Unreachable string
  | DeadlineExceeded string
  | ErrorStatus string int string

text \<open>
  Modelled from the spec: the tool catalogue entry and the execution surface the invoker
  wraps, both missing from the sources. \<open>schema_accepts\<close> says whether an argument
  payload parses against the declared schema; \<open>execute k t a\<close> is what the \<open>k\<close>-th
  network attempt with deadline \<open>t\<close> on arguments \<open>a\<close> gives: an output, or a raw
  failure.
\<close>

record tool =
  schema_accepts :: "string \<Rightarrow> bool"
  execute :: "nat \<Rightarrow> real \<Rightarrow> string \<Rightarrow> raw_failure + string"

text \<open>
  Modelled from the spec: "classify the raw failure into Connection, Timeout, or
  APIStatus (carrying status\_code and response\_body)"; the client module is missing. The
  exceptions are built with the constructors of \<^verbatim>\<open>exceptions.py\<close>.
\<close>

fun classify :: "raw_failure \<Rightarrow> exception" where
  "classify (Unreachable m) = TansiveConnectionError m"
| "classify (DeadlineExceeded m) = TansiveTimeoutError m"
| "classify (ErrorStatus m code body) =
     TansiveAPIError_init m (Given (Some code)) (Given (Some body))"

text \<open>
  Modelled from the spec: what one call of \<^verbatim>\<open>invoke\<close> did, for the tests of
  section 8; the client module is missing. \<open>attempts\<close> counts the invocation attempts
  (passes over the call: the first one, which validates before it touches the network,
  and one per retry), \<open>network_attempts\<close> the calls of the execution surface, and
  \<open>sleeps\<close> the backoff delays slept, one per retry.
\<close>

record invocation =
  result :: "exception + skill_result"
  attempts :: nat
  network_attempts :: nat
  sleeps :: "real list"

text \<open>Modelled from the spec: the retry-eligible kind of a failure, if it has one
  ("APIStatus failures with a 4xx status are never retried"); the client module is
  missing.\<close>

fun retry_kind :: "exception \<Rightarrow> retryable_kind option" where
  "retry_kind (TansiveConnectionError m) = Some Connection"
| "retry_kind (TansiveTimeoutError m) = Some Timeout"
| "retry_kind (TansiveAPIError m (Some code) rb) =
     (if 500 \<le> code \<and> code \<le> 599 then Some APIStatus5xx else None)"
| "retry_kind e = None"

text \<open>Modelled from the spec: "only failures whose kind is in retryableKinds trigger
  another attempt"; the client module is missing.\<close>

definition retryable :: "retry_config \<Rightarrow> exception \<Rightarrow> bool" where
  "retryable cfg e =
     (case retry_kind e of None \<Rightarrow> False | Some k \<Rightarrow> k \<in> retryableKinds cfg)"

text \<open>Modelled from the spec: the sleep after a retryable failure of attempt \<open>k\<close>,
  \<^verbatim>\<open>baseDelay * backoffMultiplier^(attempt-1)\<close>; the client module is missing.\<close>

definition backoff :: "retry_config \<Rightarrow> nat \<Rightarrow> real" where
  "backoff cfg k = baseDelay cfg * backoffMultiplier cfg ^ (k - 1)"

text \<open>
  Modelled from the spec: the attempts of \<^verbatim>\<open>invoke\<close>, from attempt \<open>k\<close> on (the
  first is attempt 1); the client module is missing. A success is returned; a failure
  is classified, and if it is not retryable it is raised as it is; a retryable failure
  is followed by a sleep and the next attempt while fewer than \<^verbatim>\<open>maxAttempts\<close>
  attempts were made, and by \<^verbatim>\<open>TansiveRetryError\<close> wrapping it otherwise.
\<close>

function attempt_loop ::
  "retry_config \<Rightarrow> tool \<Rightarrow> tool_call \<Rightarrow> nat \<Rightarrow> real list \<Rightarrow> invocation" where
  "attempt_loop cfg t call k slept =
     (case execute t k (perAttemptTimeout cfg) (arguments (func call)) of
        Inr out \<Rightarrow>
          \<lparr>result = Inr \<lparr>result_tool_call_id = call_id call, skill_output = out\<rparr>,
           attempts = k, network_attempts = k, sleeps = slept\<rparr>
      | Inl failure \<Rightarrow>
          if retryable cfg (classify failure)
          then if k < maxAttempts cfg
               then attempt_loop cfg t call (Suc k) (slept @ [backoff cfg k])
               else \<lparr>result = Inl (TansiveRetryError_init ''retries exhausted''
                                      (Given (Some (classify failure)))),
                     attempts = k, network_attempts = k, sleeps = slept\<rparr>
          else \<lparr>result = Inl (classify failure),
                attempts = k, network_attempts = k, sleeps = slept\<rparr>)"
  by pat_completeness auto
termination
  by (relation "measure (\<lambda>(cfg, t, call, k, slept). maxAttempts cfg - k)") auto

declare attempt_loop.simps [simp del]

text \<open>
  Modelled from the spec: \<^verbatim>\<open>invoke(call, config)\<close>; the client module is missing.
  Validation comes before any network attempt and raises
  \<^verbatim>\<open>TansiveValidationError\<close> at once.
\<close>

definition invoke :: "retry_config \<Rightarrow> tool \<Rightarrow> tool_call \<Rightarrow> invocation" where
  "invoke cfg t call =
     (if \<not> schema_accepts t (arguments (func call))
      then \<lparr>result = Inl (TansiveValidationError ''arguments do not match the schema''),
            attempts = 1, network_attempts = 0, sleeps = []\<rparr>
      else attempt_loop cfg t call 1 [])"

text \<open>Test doubles: a tool that accepts the arguments of \<open>loads_double\<close> and whose
  attempts all give the same result; and one whose first attempts give the results of a
  script, in order, and whose later attempts give a fixed result.\<close>

definition constant_tool :: "raw_failure + string \<Rightarrow> tool" where
  "constant_tool r =
     \<lparr>schema_accepts = (\<lambda>a. loads_double a \<noteq> None), execute = (\<lambda>k t a. r)\<rparr>"

definition scripted_tool :: "(raw_failure + string) list \<Rightarrow> raw_failure + string \<Rightarrow> tool" where
  "scripted_tool script later =
     \<lparr>schema_accepts = (\<lambda>a. loads_double a \<noteq> None),
      execute = (\<lambda>k t a. if 1 \<le> k \<and> k \<le> length script then script ! (k - 1) else later)\<rparr>"

definition retry_double :: "nat \<Rightarrow> retryable_kind set \<Rightarrow> retry_config" where
  "retry_double n kinds =
     \<lparr>maxAttempts = n, baseDelay = 1, backoffMultiplier = 2, perAttemptTimeout = 30,
      retryableKinds = kinds\<rparr>"

section \<open>Properties of the loop\<close>

subsection \<open>Helper lemmas\<close>

lemma run_tool_call_parses:
  "parses ext tc \<Longrightarrow> run_tool_call ext tc = Some (tool_result ext tc)"
  by (auto simp: parses_def run_tool_call_def tool_result_def)

lemma run_tool_call_fails:
  "\<not> parses ext tc \<Longrightarrow> run_tool_call ext tc = None"
  by (simp add: parses_def run_tool_call_def)

lemma for_tool_calls_all_parse:
  "list_all (parses ext) tcs \<Longrightarrow>
   for_tool_calls ext tcs messages = Continue (messages @ map (tool_result ext) tcs)"
  by (induction tcs arbitrary: messages) (simp_all add: run_tool_call_parses)

lemma for_tool_calls_first_failure:
  "list_all (parses ext) pre \<Longrightarrow> \<not> parses ext tc \<Longrightarrow>
   for_tool_calls ext (pre @ tc # rest) messages =
     Stop (SysExit 1) (messages @ map (tool_result ext) pre)"
  by (induction pre arbitrary: messages)
     (simp_all add: run_tool_call_parses run_tool_call_fails)

lemma loop_head_calls:
  assumes "create ext messages = Some response"
    and "choices response = ch # others"
    and "\<not> (truthy (finish_reason ch) \<and> finish_reason ch \<noteq> Some ''tool_calls'')"
    and "msg_tool_calls (choice_message ch) = Some tcs"
    and "tcs \<noteq> []"
  shows "loop_head ext messages = Calls (messages @ [model_dump (choice_message ch)]) tcs"
  using assms by (simp add: loop_head_def truthy_def)

lemma for_tool_calls_eq:
  "for_tool_calls ext tcs messages =
     (if list_all (parses ext) tcs
      then Continue (messages @ map (tool_result ext) tcs)
      else Stop (SysExit 1) (messages @ map (tool_result ext) (takeWhile (parses ext) tcs)))"
  by (induction tcs arbitrary: messages)
     (simp_all add: run_tool_call_parses run_tool_call_fails)

lemma loop_head_ended:
  assumes "create ext messages = Some response"
    and "choices response = ch # others"
    and "(truthy (finish_reason ch) \<and> finish_reason ch \<noteq> Some ''tool_calls'')
         \<or> \<not> truthy (msg_tool_calls (choice_message ch))"
  shows "loop_head ext messages = Ended Returned"
  using assms by (auto simp add: loop_head_def)

text \<open>
  A run in which every iteration reaches the end of the \<^verbatim>\<open>for\<close> loop never ends.
  The proof is by the induction rule of the partial function: no result \<open>Some r\<close> can
  come out of such a run.
\<close>

lemma main_loop_diverges:
  assumes always: "\<And>messages. \<exists>messages'. loop_body ext messages = Continue messages'"
  shows "main_loop ext messages = None"
proof -
  have "\<not> (\<forall>messages. \<exists>messages'. loop_body ext messages = Continue messages')"
    if h: "main_loop ext messages = Some r" for r
  proof (rule main_loop.raw_induct
      [where P = "\<lambda>ext messages r.
          \<not> (\<forall>messages. \<exists>messages'. loop_body ext messages = Continue messages')",
        OF _ h])
    fix loop' :: "'a externals \<Rightarrow> message list \<Rightarrow> (outcome \<times> message list) option"
      and ext :: "'a externals" and messages r
    assume IH: "\<And>ext messages r. loop' ext messages = Some r \<Longrightarrow>
        \<not> (\<forall>messages. \<exists>messages'. loop_body ext messages = Continue messages')"
      and eq: "(case loop_body ext messages of
                  Continue messages' \<Rightarrow> loop' ext messages'
                | Stop out messages' \<Rightarrow> Some (out, messages')) = Some r"
    show "\<not> (\<forall>messages. \<exists>messages'. loop_body ext messages = Continue messages')"
    proof (cases "loop_body ext messages")
      case (Continue messages')
      with eq have "loop' ext messages' = Some r" by simp
      then show ?thesis by (rule IH)
    next
      case (Stop out messages')
      then show ?thesis by (metis flow.distinct(1))
    qed
  qed
  with always show ?thesis by (cases "main_loop ext messages") auto
qed

lemma main_loop_stop:
  "loop_body ext messages = Stop out messages' \<Longrightarrow>
   main_loop ext messages = Some (out, messages')"
  by (subst main_loop.simps) simp

lemma main_loop_continue:
  "loop_body ext messages = Continue messages' \<Longrightarrow>
   main_loop ext messages = main_loop ext messages'"
  by (subst main_loop.simps) simp

lemmas doubles =
  constant_model_def one_turn_model_def completion_def loads_double_def
  sf_call_def paris_call_def cut_call_def
  sf_arguments_def paris_arguments_def cut_arguments_def

subsection \<open>The loop has no iteration cap\<close>

text \<open>
  C3 says that a model which requests tool calls forever makes the run end with a
  MaxTurnsExceeded condition at a configured cap. The source has \<^verbatim>\<open>while True\<close>
  and no counter, and \<open>outcome\<close> has no such condition: with the model that always
  requests \<open>sf_call\<close>, whose arguments parse, \<^verbatim>\<open>main\<close> never returns.
\<close>

theorem max_turns_counterexample:
  "main (constant_model [sf_call] (Some ''tool_calls'')) = None"
  unfolding main_def
proof (rule main_loop_diverges)
  fix ms
  have "loop_head (constant_model [sf_call] (Some ''tool_calls'')) ms =
     Calls (ms @ [model_dump \<lparr>msg_content = None, msg_tool_calls = Some [sf_call]\<rparr>]) [sf_call]"
    by (simp add: loop_head_def truthy_def constant_model_def completion_def)
  moreover have "parses (constant_model [sf_call] (Some ''tool_calls'')) sf_call"
    by (simp add: parses_def constant_model_def loads_double_def sf_call_def)
  ultimately show
    "\<exists>messages'. loop_body (constant_model [sf_call] (Some ''tool_calls'')) ms = Continue messages'"
    by (simp add: loop_body_def for_tool_calls_eq)
qed

text \<open>
  C3, amended: for every model whose every response has finish reason "tool\_calls" and
  a non-empty list of tool calls whose arguments all parse, the loop never ends, from
  whatever message list it starts: there is no iteration cap.
\<close>

theorem no_iteration_cap:
  assumes "\<forall>messages. \<exists>response ch others tcs.
      create ext messages = Some response \<and> choices response = ch # others \<and>
      finish_reason ch = Some ''tool_calls'' \<and>
      msg_tool_calls (choice_message ch) = Some tcs \<and> tcs \<noteq> [] \<and>
      list_all (parses ext) tcs"
  shows "main_loop ext messages = None"
proof (rule main_loop_diverges)
  fix ms
  from assms obtain response ch others tcs where
    r: "create ext ms = Some response" "choices response = ch # others"
      "finish_reason ch = Some ''tool_calls''"
      "msg_tool_calls (choice_message ch) = Some tcs" "tcs \<noteq> []" "list_all (parses ext) tcs"
    by blast
  then have "loop_head ext ms = Calls (ms @ [model_dump (choice_message ch)]) tcs"
    by (intro loop_head_calls) simp_all
  with r show "\<exists>messages'. loop_body ext ms = Continue messages'"
    by (simp add: loop_body_def for_tool_calls_eq)
qed

theorem no_iteration_cap_witness:
  "(\<forall>messages. \<exists>response ch others tcs.
      create (constant_model [sf_call] (Some ''tool_calls'')) messages = Some response \<and>
      choices response = ch # others \<and>
      finish_reason ch = Some ''tool_calls'' \<and>
      msg_tool_calls (choice_message ch) = Some tcs \<and> tcs \<noteq> [] \<and>
      list_all (parses (constant_model [sf_call] (Some ''tool_calls''))) tcs) \<and>
   main_loop (constant_model [sf_call] (Some ''tool_calls'')) initial_messages = None"
proof -
  have h: "\<forall>messages. \<exists>response ch others tcs.
      create (constant_model [sf_call] (Some ''tool_calls'')) messages = Some response \<and>
      choices response = ch # others \<and>
      finish_reason ch = Some ''tool_calls'' \<and>
      msg_tool_calls (choice_message ch) = Some tcs \<and> tcs \<noteq> [] \<and>
      list_all (parses (constant_model [sf_call] (Some ''tool_calls''))) tcs"
    by (simp add: constant_model_def completion_def parses_def loads_double_def sf_call_def)
  from h no_iteration_cap [OF h] show ?thesis by blast
qed

subsection \<open>Tool-role messages follow the tool calls\<close>

text \<open>
  C1 says that every response containing tool calls gets one tool-role message per call,
  in order. Two responses with one tool call each get none: when the arguments of the
  call do not parse the process exits at that call, and when the finish reason is "stop"
  the loop breaks before the tool calls are looked at.
\<close>

theorem tool_messages_counterexample:
  "main (constant_model [cut_call] (Some ''tool_calls'')) =
     Some (SysExit 1, initial_messages @
       [model_dump \<lparr>msg_content = None, msg_tool_calls = Some [cut_call]\<rparr>]) \<and>
   main (constant_model [sf_call] (Some ''stop'')) = Some (Returned, initial_messages)"
  by (simp add: main_def main_loop.simps loop_body_def loop_head_def truthy_def
       run_tool_call_def doubles)

text \<open>
  C1, amended: for every response whose finish reason is missing, empty or "tool\_calls"
  and whose tool-call list is non-empty with arguments that all parse, the iteration
  appends the assistant message and then exactly one tool-role message per tool call, in
  the order of the calls: the i-th appended tool-role message carries the id of the i-th
  call.
\<close>

theorem tool_messages_follow_calls:
  assumes "create ext messages = Some response"
    and "choices response = ch # others"
    and "\<not> (truthy (finish_reason ch) \<and> finish_reason ch \<noteq> Some ''tool_calls'')"
    and "msg_tool_calls (choice_message ch) = Some tcs"
    and "tcs \<noteq> []"
    and "list_all (parses ext) tcs"
  shows "\<exists>appended.
      loop_body ext messages =
        Continue (messages @ model_dump (choice_message ch) # appended) \<and>
      length appended = length tcs \<and>
      (\<forall>i<length tcs. role (appended ! i) = ''tool'' \<and>
                       tool_call_id (appended ! i) = Some (call_id (tcs ! i)))"
proof -
  have "loop_head ext messages = Calls (messages @ [model_dump (choice_message ch)]) tcs"
    using assms(1-5) by (rule loop_head_calls)
  with assms(6) have "loop_body ext messages =
      Continue (messages @ model_dump (choice_message ch) # map (tool_result ext) tcs)"
    by (simp add: loop_body_def for_tool_calls_eq)
  moreover have "\<forall>i<length tcs. role (map (tool_result ext) tcs ! i) = ''tool'' \<and>
      tool_call_id (map (tool_result ext) tcs ! i) = Some (call_id (tcs ! i))"
    by (simp add: tool_result_def)
  ultimately show ?thesis by (intro exI[of _ "map (tool_result ext) tcs"]) simp
qed

theorem tool_messages_follow_calls_witness:
  "create (one_turn_model [sf_call, paris_call] (Some ''tool_calls'')) initial_messages =
     Some (completion None (Some [sf_call, paris_call]) (Some ''tool_calls'')) \<and>
   list_all (parses (one_turn_model [sf_call, paris_call] (Some ''tool_calls'')))
     [sf_call, paris_call] \<and>
   (\<exists>appended.
      loop_body (one_turn_model [sf_call, paris_call] (Some ''tool_calls'')) initial_messages =
        Continue (initial_messages @
          model_dump \<lparr>msg_content = None, msg_tool_calls = Some [sf_call, paris_call]\<rparr> #
          appended) \<and>
      length appended = 2 \<and>
      tool_call_id (appended ! 0) = Some ''call_1'' \<and>
      tool_call_id (appended ! 1) = Some ''call_2'')"
proof -
  let ?E = "one_turn_model [sf_call, paris_call] (Some ''tool_calls'')"
  let ?ch = "\<lparr>choice_message = \<lparr>msg_content = None, msg_tool_calls = Some [sf_call, paris_call]\<rparr>,
              finish_reason = Some ''tool_calls''\<rparr>"
  have a: "create ?E initial_messages =
      Some (completion None (Some [sf_call, paris_call]) (Some ''tool_calls''))"
    by (simp add: one_turn_model_def initial_messages_def)
  have b: "choices (completion None (Some [sf_call, paris_call]) (Some ''tool_calls'')) = ?ch # []"
    by (simp add: completion_def)
  have c: "\<not> (truthy (finish_reason ?ch) \<and> finish_reason ?ch \<noteq> Some ''tool_calls'')"
    by simp
  have d: "msg_tool_calls (choice_message ?ch) = Some [sf_call, paris_call]"
    by simp
  have e: "[sf_call, paris_call] \<noteq> []"
    by simp
  have f: "list_all (parses ?E) [sf_call, paris_call]"
    by (simp add: parses_def doubles)
  from tool_messages_follow_calls [OF a b c d e f] obtain appended where
    "loop_body ?E initial_messages =
        Continue (initial_messages @ model_dump (choice_message ?ch) # appended)"
    "length appended = length [sf_call, paris_call]"
    "\<forall>i<length [sf_call, paris_call]. role (appended ! i) = ''tool'' \<and>
        tool_call_id (appended ! i) = Some (call_id ([sf_call, paris_call] ! i))"
    by blast
  then have "loop_body ?E initial_messages =
        Continue (initial_messages @
          model_dump \<lparr>msg_content = None, msg_tool_calls = Some [sf_call, paris_call]\<rparr> #
          appended) \<and>
      length appended = 2 \<and>
      tool_call_id (appended ! 0) = Some ''call_1'' \<and>
      tool_call_id (appended ! 1) = Some ''call_2''"
    by (simp add: sf_call_def paris_call_def)
  with a f show ?thesis by blast
qed

subsection \<open>A tool call that fails ends the run\<close>

text \<open>
  C2 says that a failing tool call does not abort the loop and that a tool-role message
  with an error payload is appended for it. With three tool calls of which the second
  has arguments that do not parse, the run ends with \<^verbatim>\<open>sys.exit(1)\<close>; the only
  tool-role message is the one of the first call.
\<close>

theorem failed_tool_call_counterexample:
  "main (constant_model [sf_call, cut_call, paris_call] (Some ''tool_calls'')) =
     Some (SysExit 1, initial_messages @
       [model_dump \<lparr>msg_content = None,
                    msg_tool_calls = Some [sf_call, cut_call, paris_call]\<rparr>,
        \<lparr>role = ''tool'', content = Some (dumps_double mock_response), tool_calls = None,
          tool_call_id = Some ''call_1''\<rparr>])"
  by (simp add: main_def main_loop.simps loop_body_def loop_head_def truthy_def
       run_tool_call_def doubles)

text \<open>
  C2, amended: when the arguments of a tool call fail to parse, the run ends at that call
  with exit status 1: no message is appended for the failed call or for the calls after
  it, no further completion request is made, and the message list holds the assistant
  message followed by the tool-role messages of the calls before the failed one.
\<close>

theorem failed_tool_call_ends_run:
  assumes "create ext messages = Some response"
    and "choices response = ch # others"
    and "\<not> (truthy (finish_reason ch) \<and> finish_reason ch \<noteq> Some ''tool_calls'')"
    and "msg_tool_calls (choice_message ch) = Some (pre @ tc # rest)"
    and "list_all (parses ext) pre"
    and "\<not> parses ext tc"
  shows "run_tool_call ext tc = None \<and>
         main_loop ext messages =
           Some (SysExit 1,
                 messages @ model_dump (choice_message ch) # map (tool_result ext) pre)"
proof -
  have "loop_head ext messages =
      Calls (messages @ [model_dump (choice_message ch)]) (pre @ tc # rest)"
    using assms(1-4) by (intro loop_head_calls) simp_all
  then have "loop_body ext messages =
      Stop (SysExit 1) (messages @ model_dump (choice_message ch) # map (tool_result ext) pre)"
    using assms(5,6) by (simp add: loop_body_def for_tool_calls_first_failure)
  then show ?thesis using assms(6) by (simp add: main_loop_stop run_tool_call_fails)
qed

theorem failed_tool_call_ends_run_witness:
  "create (constant_model [sf_call, cut_call, paris_call] None) [] =
     Some (completion None (Some ([sf_call] @ cut_call # [paris_call])) None) \<and>
   list_all (parses (constant_model [sf_call, cut_call, paris_call] None)) [sf_call] \<and>
   \<not> parses (constant_model [sf_call, cut_call, paris_call] None) cut_call \<and>
   run_tool_call (constant_model [sf_call, cut_call, paris_call] None) cut_call = None \<and>
   main_loop (constant_model [sf_call, cut_call, paris_call] None) [] =
     Some (SysExit 1,
       [model_dump \<lparr>msg_content = None,
                    msg_tool_calls = Some [sf_call, cut_call, paris_call]\<rparr>,
        tool_result (constant_model [sf_call, cut_call, paris_call] None) sf_call])"
proof -
  let ?E = "constant_model [sf_call, cut_call, paris_call] None"
  let ?ch = "\<lparr>choice_message =
                \<lparr>msg_content = None, msg_tool_calls = Some ([sf_call] @ cut_call # [paris_call])\<rparr>,
              finish_reason = None\<rparr>"
  have a: "create ?E [] = Some (completion None (Some ([sf_call] @ cut_call # [paris_call])) None)"
    by (simp add: constant_model_def)
  have b: "choices (completion None (Some ([sf_call] @ cut_call # [paris_call])) None) = ?ch # []"
    by (simp add: completion_def)
  have c: "\<not> (truthy (finish_reason ?ch) \<and> finish_reason ?ch \<noteq> Some ''tool_calls'')"
    by (simp add: truthy_def)
  have d: "msg_tool_calls (choice_message ?ch) = Some ([sf_call] @ cut_call # [paris_call])"
    by simp
  have e: "list_all (parses ?E) [sf_call]"
    by (simp add: parses_def doubles)
  have f: "\<not> parses ?E cut_call"
    by (simp add: parses_def doubles)
  from a e f failed_tool_call_ends_run [OF a b c d e f] show ?thesis
    by simp
qed

subsection \<open>When the loop ends\<close>

text \<open>
  C5 says that the loop ends exactly when the finish reason is not "tool\_calls" or the
  response has no tool calls, and otherwise runs the tool calls and iterates again. A
  response without a finish reason and with a tool call is answered by running the tool
  and going on; a response with finish reason "tool\_calls" and a tool call whose
  arguments do not parse ends the run without another request.
\<close>

theorem loop_exit_counterexample:
  "loop_body (one_turn_model [sf_call] None) initial_messages =
     Continue (initial_messages @
       [model_dump \<lparr>msg_content = None, msg_tool_calls = Some [sf_call]\<rparr>,
        \<lparr>role = ''tool'', content = Some (dumps_double mock_response), tool_calls = None,
          tool_call_id = Some ''call_1''\<rparr>]) \<and>
   loop_body (constant_model [cut_call] (Some ''tool_calls'')) initial_messages =
     Stop (SysExit 1) (initial_messages @
       [model_dump \<lparr>msg_content = None, msg_tool_calls = Some [cut_call]\<rparr>])"
  by (simp add: loop_body_def loop_head_def truthy_def run_tool_call_def
       doubles initial_messages_def)

text \<open>
  C5, amended: for every response, the loop breaks (\<^verbatim>\<open>main\<close> returns without
  another completion request) exactly when the finish reason is non-empty and not
  "tool\_calls", or the response has no tool calls. Otherwise the assistant message is
  appended and the tool calls are run in order: if the arguments of all of them parse the
  loop iterates again on the extended message list, and if not the run ends with exit
  status 1 at the first call whose arguments do not parse.
\<close>

theorem loop_exit_condition:
  assumes "create ext messages = Some response"
    and "choices response = ch # others"
  shows "(loop_body ext messages = Stop Returned messages) =
           ((truthy (finish_reason ch) \<and> finish_reason ch \<noteq> Some ''tool_calls'')
            \<or> \<not> truthy (msg_tool_calls (choice_message ch))) \<and>
         (loop_body ext messages = Stop Returned messages \<longrightarrow>
            main_loop ext messages = Some (Returned, messages)) \<and>
         (loop_body ext messages \<noteq> Stop Returned messages \<longrightarrow>
            (\<exists>tcs. msg_tool_calls (choice_message ch) = Some tcs \<and> tcs \<noteq> [] \<and>
               main_loop ext messages =
                 (if list_all (parses ext) tcs
                  then main_loop ext
                         (messages @ model_dump (choice_message ch) # map (tool_result ext) tcs)
                  else Some (SysExit 1,
                         messages @ model_dump (choice_message ch) #
                           map (tool_result ext) (takeWhile (parses ext) tcs)))))"
proof (cases "(truthy (finish_reason ch) \<and> finish_reason ch \<noteq> Some ''tool_calls'')
            \<or> \<not> truthy (msg_tool_calls (choice_message ch))")
  case True
  with assms have "loop_head ext messages = Ended Returned" by (rule loop_head_ended)
  then have "loop_body ext messages = Stop Returned messages" by (simp add: loop_body_def)
  with True show ?thesis by (simp add: main_loop_stop)
next
  case False
  then obtain tcs where t: "msg_tool_calls (choice_message ch) = Some tcs" "tcs \<noteq> []"
    by (auto simp: truthy_def split: option.splits)
  from False have "\<not> (truthy (finish_reason ch) \<and> finish_reason ch \<noteq> Some ''tool_calls'')"
    by simp
  with assms t
  have "loop_head ext messages = Calls (messages @ [model_dump (choice_message ch)]) tcs"
    by (intro loop_head_calls)
  then have b: "loop_body ext messages =
       (if list_all (parses ext) tcs
        then Continue (messages @ model_dump (choice_message ch) # map (tool_result ext) tcs)
        else Stop (SysExit 1) (messages @ model_dump (choice_message ch) #
               map (tool_result ext) (takeWhile (parses ext) tcs)))"
    by (simp add: loop_body_def for_tool_calls_eq)
  then have "loop_body ext messages \<noteq> Stop Returned messages"
    by (simp split: if_splits)
  moreover from b have "main_loop ext messages =
                 (if list_all (parses ext) tcs
                  then main_loop ext
                         (messages @ model_dump (choice_message ch) # map (tool_result ext) tcs)
                  else Some (SysExit 1,
                         messages @ model_dump (choice_message ch) #
                           map (tool_result ext) (takeWhile (parses ext) tcs)))"
    by (simp add: main_loop_stop main_loop_continue split: if_splits)
  ultimately show ?thesis using False t by simp
qed

theorem loop_exit_condition_witness:
  "create (one_turn_model [sf_call] (Some ''tool_calls'')) initial_messages =
     Some (completion None (Some [sf_call]) (Some ''tool_calls'')) \<and>
   loop_body (one_turn_model [sf_call] (Some ''tool_calls'')) initial_messages \<noteq>
     Stop Returned initial_messages \<and>
   main_loop (one_turn_model [sf_call] (Some ''tool_calls'')) initial_messages =
     main_loop (one_turn_model [sf_call] (Some ''tool_calls''))
       (initial_messages @
          [model_dump \<lparr>msg_content = None, msg_tool_calls = Some [sf_call]\<rparr>,
           tool_result (one_turn_model [sf_call] (Some ''tool_calls'')) sf_call])"
proof -
  let ?E = "one_turn_model [sf_call] (Some ''tool_calls'')"
  let ?ch = "\<lparr>choice_message = \<lparr>msg_content = None, msg_tool_calls = Some [sf_call]\<rparr>,
              finish_reason = Some ''tool_calls''\<rparr>"
  have a: "create ?E initial_messages = Some (completion None (Some [sf_call]) (Some ''tool_calls''))"
    by (simp add: one_turn_model_def initial_messages_def)
  have b: "choices (completion None (Some [sf_call]) (Some ''tool_calls'')) = ?ch # []"
    by (simp add: completion_def)
  have p: "parses ?E sf_call"
    by (simp add: parses_def doubles)
  from a p loop_exit_condition [OF a b] show ?thesis
    by (simp add: truthy_def)
qed

subsection \<open>The content of a tool-role message\<close>

text \<open>
  C9: the \<^verbatim>\<open>for\<close> loop appends, for every tool call it serves (every call whose
  arguments parse, up to the first one whose arguments do not), a tool-role message that
  carries the id of the call and whose content is the serialization of the fixed
  dictionary temperature 72 degrees F, condition Sunny, humidity 45 percent. The content
  does not depend on the name of the tool or on the parsed arguments, so the messages
  appended for two tool calls with different arguments have the same content.
\<close>

theorem tool_content_is_fixed:
  "for_tool_calls ext tcs messages =
     (if list_all (parses ext) tcs
      then Continue (messages @
             map (\<lambda>tc. \<lparr>role = ''tool'',
                         content = Some (json_dumps ext
                           [(''temperature'', ''72'' @ [CHR 0xB0] @ ''F''),
                            (''condition'', ''Sunny''),
                            (''humidity'', ''45%'')]),
                         tool_calls = None,
                         tool_call_id = Some (call_id tc)\<rparr>) tcs)
      else Stop (SysExit 1) (messages @
             map (\<lambda>tc. \<lparr>role = ''tool'',
                         content = Some (json_dumps ext
                           [(''temperature'', ''72'' @ [CHR 0xB0] @ ''F''),
                            (''condition'', ''Sunny''),
                            (''humidity'', ''45%'')]),
                         tool_calls = None,
                         tool_call_id = Some (call_id tc)\<rparr>) (takeWhile (parses ext) tcs))) \<and>
   (\<forall>tc tc' a a'.
      json_loads ext (arguments (func tc)) = Some a \<and>
      json_loads ext (arguments (func tc')) = Some a' \<longrightarrow>
      (\<exists>m m'. for_tool_calls ext [tc] messages = Continue (messages @ [m]) \<and>
               for_tool_calls ext [tc'] messages = Continue (messages @ [m']) \<and>
               role m = ''tool'' \<and> role m' = ''tool'' \<and>
               tool_call_id m = Some (call_id tc) \<and> tool_call_id m' = Some (call_id tc') \<and>
               content m = content m'))"
proof -
  have "for_tool_calls ext tcs messages =
     (if list_all (parses ext) tcs
      then Continue (messages @
             map (\<lambda>tc. \<lparr>role = ''tool'',
                         content = Some (json_dumps ext
                           [(''temperature'', ''72'' @ [CHR 0xB0] @ ''F''),
                            (''condition'', ''Sunny''),
                            (''humidity'', ''45%'')]),
                         tool_calls = None,
                         tool_call_id = Some (call_id tc)\<rparr>) tcs)
      else Stop (SysExit 1) (messages @
             map (\<lambda>tc. \<lparr>role = ''tool'',
                         content = Some (json_dumps ext
                           [(''temperature'', ''72'' @ [CHR 0xB0] @ ''F''),
                            (''condition'', ''Sunny''),
                            (''humidity'', ''45%'')]),
                         tool_calls = None,
                         tool_call_id = Some (call_id tc)\<rparr>) (takeWhile (parses ext) tcs)))"
    by (induction tcs arbitrary: messages)
       (simp_all add: run_tool_call_def parses_def mock_response_def split: option.splits)
  moreover have "\<forall>tc tc' a a'.
      json_loads ext (arguments (func tc)) = Some a \<and>
      json_loads ext (arguments (func tc')) = Some a' \<longrightarrow>
      (\<exists>m m'. for_tool_calls ext [tc] messages = Continue (messages @ [m]) \<and>
               for_tool_calls ext [tc'] messages = Continue (messages @ [m']) \<and>
               role m = ''tool'' \<and> role m' = ''tool'' \<and>
               tool_call_id m = Some (call_id tc) \<and> tool_call_id m' = Some (call_id tc') \<and>
               content m = content m')"
    by (simp add: run_tool_call_def)
  ultimately show ?thesis by (rule conjI)
qed

theorem tool_content_is_fixed_witness:
  "json_loads (constant_model [] None) (arguments (func sf_call)) = Some sf_arguments \<and>
   json_loads (constant_model [] None) (arguments (func paris_call)) = Some paris_arguments \<and>
   name (func sf_call) \<noteq> name (func paris_call) \<and>
   sf_arguments \<noteq> paris_arguments \<and>
   for_tool_calls (constant_model [] None) [sf_call, paris_call] initial_messages =
     Continue (initial_messages @
       [\<lparr>role = ''tool'',
          content = Some (dumps_double
            [(''temperature'', ''72'' @ [CHR 0xB0] @ ''F''),
             (''condition'', ''Sunny''), (''humidity'', ''45%'')]),
          tool_calls = None, tool_call_id = Some ''call_1''\<rparr>,
        \<lparr>role = ''tool'',
          content = Some (dumps_double
            [(''temperature'', ''72'' @ [CHR 0xB0] @ ''F''),
             (''condition'', ''Sunny''), (''humidity'', ''45%'')]),
          tool_calls = None, tool_call_id = Some ''call_2''\<rparr>])"
proof -
  have a: "json_loads (constant_model [] None) (arguments (func sf_call)) = Some sf_arguments"
    by (simp add: constant_model_def loads_double_def sf_call_def)
  have b: "json_loads (constant_model [] None) (arguments (func paris_call)) = Some paris_arguments"
    by (simp add: constant_model_def loads_double_def paris_call_def)
  have c: "name (func sf_call) \<noteq> name (func paris_call)"
    by (simp add: sf_call_def paris_call_def)
  have d: "sf_arguments \<noteq> paris_arguments"
    by (simp add: sf_arguments_def paris_arguments_def)
  have p: "list_all (parses (constant_model [] None)) [sf_call, paris_call]"
    using a b by (simp add: parses_def)
  have j: "json_dumps (constant_model [] None) = dumps_double"
    by (simp add: constant_model_def)
  have i: "call_id sf_call = ''call_1''" "call_id paris_call = ''call_2''"
    by (simp_all add: sf_call_def paris_call_def)
  have h: "for_tool_calls (constant_model [] None) [sf_call, paris_call] initial_messages =
     Continue (initial_messages @
       map (\<lambda>tc. \<lparr>role = ''tool'',
                   content = Some (json_dumps (constant_model [] None)
                     [(''temperature'', ''72'' @ [CHR 0xB0] @ ''F''),
                      (''condition'', ''Sunny''), (''humidity'', ''45%'')]),
                   tool_calls = None, tool_call_id = Some (call_id tc)\<rparr>)
         [sf_call, paris_call])"
    using p
    by (simp only:
          conjunct1 [OF tool_content_is_fixed
            [of "constant_model [] None" "[sf_call, paris_call]" initial_messages]]
          if_True)
  from a b c d h show ?thesis
    by (simp add: j i del: for_tool_calls.simps)
qed

subsection \<open>Tool-role messages and the request they answer\<close>

lemma loop_head_CallsD:
  assumes "loop_head ext messages = Calls messages' tcs"
  shows "\<exists>m. messages' = messages @ [model_dump m] \<and> msg_tool_calls m = Some tcs"
  using assms
  by (auto simp: loop_head_def split: option.splits list.splits if_splits)

lemma run_tool_call_SomeD:
  "run_tool_call ext tc = Some m \<Longrightarrow> m = tool_result ext tc"
  by (auto simp: run_tool_call_def tool_result_def split: option.splits)

lemma tool_ids_ok_snoc_assistant:
  "role a = ''assistant'' \<Longrightarrow> tool_ids_ok ids (ms @ [a]) = tool_ids_ok ids ms"
  by (induction ms arbitrary: ids) simp_all

lemma tool_ids_ok_results:
  "set (map call_id served) \<subseteq> set ids \<Longrightarrow> tool_ids_ok ids (map (tool_result ext) served)"
  by (induction served) (simp_all add: tool_result_def)

lemma tool_ids_ok_block:
  "role a = ''assistant'' \<Longrightarrow> tool_ids_ok ids pre \<Longrightarrow>
   tool_ids_ok (requested_ids a) rs \<Longrightarrow> tool_ids_ok ids (pre @ a # rs)"
  by (induction pre arbitrary: ids) (simp_all split: if_splits)

lemma inv_step:
  assumes "tool_ids_ok [] (messages_of c)" and "for_inv ext c"
  shows "tool_ids_ok [] (messages_of (step ext c)) \<and> for_inv ext (step ext c)"
proof (cases c)
  case (AtWhile ms)
  show ?thesis
  proof (cases "loop_head ext ms")
    case (Ended out)
    with AtWhile assms show ?thesis by (simp add: for_inv_def)
  next
    case (Calls ms' tcs)
    then obtain m where m: "ms' = ms @ [model_dump m]" "msg_tool_calls m = Some tcs"
      using loop_head_CallsD by blast
    have "tool_ids_ok [] ms'"
      using assms(1) AtWhile m by (simp add: tool_ids_ok_snoc_assistant model_dump_def)
    moreover have "\<exists>pre a served. ms' = pre @ a # map (tool_result ext) served \<and>
        role a = ''assistant'' \<and> tool_calls a = Some (served @ tcs) \<and> tool_ids_ok [] pre"
      apply (rule exI[of _ ms])
      apply (rule exI[of _ "model_dump m"])
      apply (rule exI[of _ "[]"])
      using m assms(1) AtWhile apply (simp add: model_dump_def)
      done
    then have "for_inv ext (AtFor ms' tcs)"
      by (simp add: for_inv_def)
    ultimately show ?thesis using AtWhile Calls by simp
  qed
next
  case (AtFor ms pending)
  from assms(2) AtFor obtain pre a served where
    f: "ms = pre @ a # map (tool_result ext) served" "role a = ''assistant''"
       "tool_calls a = Some (served @ pending)" "tool_ids_ok [] pre"
    by (auto simp: for_inv_def)
  show ?thesis
  proof (cases pending)
    case Nil
    with AtFor assms show ?thesis by (simp add: for_inv_def)
  next
    case (Cons tc tcs)
    show ?thesis
    proof (cases "run_tool_call ext tc")
      case None
      with AtFor Cons assms show ?thesis by (simp add: for_inv_def)
    next
      case (Some m)
      then have m: "m = tool_result ext tc" by (rule run_tool_call_SomeD)
      have eq: "ms @ [m] = pre @ a # map (tool_result ext) (served @ [tc])"
        using f(1) m by simp
      have "tool_ids_ok (requested_ids a) (map (tool_result ext) (served @ [tc]))"
        using f(3) Cons by (intro tool_ids_ok_results) (auto simp: requested_ids_def)
      with f(2,4) have "tool_ids_ok [] (pre @ a # map (tool_result ext) (served @ [tc]))"
        by (intro tool_ids_ok_block)
      moreover have "\<exists>pre' a' served'. ms @ [m] = pre' @ a' # map (tool_result ext) served' \<and>
          role a' = ''assistant'' \<and> tool_calls a' = Some (served' @ tcs) \<and> tool_ids_ok [] pre'"
        apply (rule exI[of _ pre])
        apply (rule exI[of _ a])
        apply (rule exI[of _ "served @ [tc]"])
        using eq f Cons apply simp
        done
      then have "for_inv ext (AtFor (ms @ [m]) tcs)"
        by (simp add: for_inv_def)
      ultimately show ?thesis using AtFor Cons Some eq by simp
    qed
  qed
next
  case (Halted out ms)
  with assms show ?thesis by (simp add: for_inv_def)
qed

lemma reachable_inv:
  "reachable ext c \<Longrightarrow> tool_ids_ok [] (messages_of c) \<and> for_inv ext c"
proof (induction rule: reachable.induct)
  case start
  show ?case by (simp add: initial_messages_def for_inv_def)
next
  case (after c)
  then show ?case using inv_step by blast
qed

text \<open>
  C4: in every control state the loop reaches from the initial messages, every tool-role
  message carries the id of a tool call of the closest assistant message before it; and
  whenever the loop is inside the \<^verbatim>\<open>for\<close> loop, about to run the pending tool
  calls, the assistant message that requests them is already in the message list,
  followed only by the tool-role messages of the calls served so far.
\<close>

theorem tool_results_follow_request:
  assumes "reachable ext c"
  shows "tool_ids_ok [] (messages_of c) \<and>
         (\<forall>ms pending. c = AtFor ms pending \<longrightarrow>
            (\<exists>pre a served. ms = pre @ a # map (tool_result ext) served \<and> role a = ''assistant'' \<and>
               tool_calls a = Some (served @ pending)))"
proof -
  from reachable_inv [OF assms] have ok: "tool_ids_ok [] (messages_of c)" and f: "for_inv ext c"
    by simp_all
  from f have "\<forall>ms pending. c = AtFor ms pending \<longrightarrow>
            (\<exists>pre a served. ms = pre @ a # map (tool_result ext) served \<and> role a = ''assistant'' \<and>
               tool_calls a = Some (served @ pending))"
    unfolding for_inv_def by (cases c) (simp_all, blast)
  with ok show ?thesis by simp
qed

theorem tool_results_follow_request_witness:
  "reachable (one_turn_model [sf_call, paris_call] (Some ''tool_calls''))
     (AtFor (initial_messages @
               [model_dump \<lparr>msg_content = None, msg_tool_calls = Some [sf_call, paris_call]\<rparr>,
                tool_result (one_turn_model [sf_call, paris_call] (Some ''tool_calls'')) sf_call])
            [paris_call]) \<and>
   tool_ids_ok [] (initial_messages @
               [model_dump \<lparr>msg_content = None, msg_tool_calls = Some [sf_call, paris_call]\<rparr>,
                tool_result (one_turn_model [sf_call, paris_call] (Some ''tool_calls'')) sf_call]) \<and>
   (\<exists>pre a served. initial_messages @
               [model_dump \<lparr>msg_content = None, msg_tool_calls = Some [sf_call, paris_call]\<rparr>,
                tool_result (one_turn_model [sf_call, paris_call] (Some ''tool_calls'')) sf_call]
            = pre @ a # map (tool_result (one_turn_model [sf_call, paris_call] (Some ''tool_calls''))) served \<and>
          role a = ''assistant'' \<and> tool_calls a = Some (served @ [paris_call]))"
proof -
  let ?E = "one_turn_model [sf_call, paris_call] (Some ''tool_calls'')"
  let ?a = "model_dump \<lparr>msg_content = None, msg_tool_calls = Some [sf_call, paris_call]\<rparr>"
  have s1: "step ?E (AtWhile initial_messages) = AtFor (initial_messages @ [?a]) [sf_call, paris_call]"
    by (simp add: loop_head_def truthy_def one_turn_model_def completion_def initial_messages_def)
  have s2: "step ?E (AtFor (initial_messages @ [?a]) [sf_call, paris_call]) =
      AtFor (initial_messages @ [?a, tool_result ?E sf_call]) [paris_call]"
    by (simp add: run_tool_call_def tool_result_def one_turn_model_def loads_double_def sf_call_def)
  have r: "reachable ?E (AtFor (initial_messages @ [?a, tool_result ?E sf_call]) [paris_call])"
    using reachable.after [OF reachable.after [OF reachable.start [of ?E]]] s1 s2 by simp
  from r tool_results_follow_request [OF r] show ?thesis by simp
qed

subsection \<open>The loop and the transition system agree\<close>

text \<open>Whatever \<open>main_loop\<close> returns is a halted state the transition system reaches.\<close>

lemma for_loop_reachable:
  "reachable ext (AtFor ms tcs) \<Longrightarrow>
   (case for_tool_calls ext tcs ms of
      Continue ms' \<Rightarrow> reachable ext (AtWhile ms')
    | Stop out ms' \<Rightarrow> reachable ext (Halted out ms'))"
proof (induction tcs arbitrary: ms)
  case Nil
  from reachable.after [OF Nil] show ?case by simp
next
  case (Cons tc tcs)
  show ?case
  proof (cases "run_tool_call ext tc")
    case None
    with reachable.after [OF Cons.prems] show ?thesis by simp
  next
    case (Some m)
    with reachable.after [OF Cons.prems] have "reachable ext (AtFor (ms @ [m]) tcs)" by simp
    from Cons.IH [OF this] Some show ?thesis by simp
  qed
qed

lemma loop_body_reachable:
  assumes "reachable ext (AtWhile ms)"
  shows "(case loop_body ext ms of
      Continue ms' \<Rightarrow> reachable ext (AtWhile ms')
    | Stop out ms' \<Rightarrow> reachable ext (Halted out ms'))"
proof (cases "loop_head ext ms")
  case (Ended out)
  with reachable.after [OF assms] show ?thesis by (simp add: loop_body_def)
next
  case (Calls ms' tcs)
  with reachable.after [OF assms] have "reachable ext (AtFor ms' tcs)" by simp
  from for_loop_reachable [OF this] Calls show ?thesis by (simp add: loop_body_def)
qed

lemma main_loop_reachable:
  assumes h: "main_loop ext ms = Some r" and r: "reachable ext (AtWhile ms)"
  shows "reachable ext (Halted (fst r) (snd r))"
proof -
  have "reachable ext (AtWhile ms) \<longrightarrow> reachable ext (Halted (fst r) (snd r))"
  proof (rule main_loop.raw_induct
      [where P = "\<lambda>ext ms r. reachable ext (AtWhile ms) \<longrightarrow> reachable ext (Halted (fst r) (snd r))",
        OF _ h])
    fix loop' :: "'a externals \<Rightarrow> message list \<Rightarrow> (outcome \<times> message list) option"
      and ext :: "'a externals" and ms r
    assume IH: "\<And>ext ms r. loop' ext ms = Some r \<Longrightarrow>
        reachable ext (AtWhile ms) \<longrightarrow> reachable ext (Halted (fst r) (snd r))"
      and eq: "(case loop_body ext ms of
                  Continue ms' \<Rightarrow> loop' ext ms'
                | Stop out ms' \<Rightarrow> Some (out, ms')) = Some r"
    show "reachable ext (AtWhile ms) \<longrightarrow> reachable ext (Halted (fst r) (snd r))"
    proof
      assume a: "reachable ext (AtWhile ms)"
      show "reachable ext (Halted (fst r) (snd r))"
      proof (cases "loop_body ext ms")
        case (Continue ms')
        with eq have "loop' ext ms' = Some r" by simp
        moreover from loop_body_reachable [OF a] Continue have "reachable ext (AtWhile ms')" by simp
        ultimately show ?thesis using IH by blast
      next
        case (Stop out ms')
        with eq have "r = (out, ms')" by simp
        with loop_body_reachable [OF a] Stop show ?thesis by simp
      qed
    qed
  qed
  with r show ?thesis by blast
qed

section \<open>Properties of the exceptions\<close>

lemma mro_sdk:
  "mro Exception_class = [Exception_class]"
  "mro TansiveError_class = [TansiveError_class, Exception_class]"
  "mro TansiveConnectionError_class =
     [TansiveConnectionError_class, TansiveError_class, Exception_class]"
  "mro TansiveTimeoutError_class =
     [TansiveTimeoutError_class, TansiveError_class, Exception_class]"
  "mro TansiveAPIError_class = [TansiveAPIError_class, TansiveError_class, Exception_class]"
  "mro TansiveRetryError_class = [TansiveRetryError_class, TansiveError_class, Exception_class]"
  "mro TansiveValidationError_class =
     [TansiveValidationError_class, TansiveError_class, Exception_class]"
  by (simp_all add: mro.simps)

text \<open>
  C10: each of the five error classes (connection, timeout, API status, retry,
  validation) is a subclass of \<^verbatim>\<open>TansiveError\<close>, so \<^verbatim>\<open>except TansiveError\<close>
  catches every instance of them (and of \<^verbatim>\<open>TansiveError\<close> itself, but not an
  exception from outside the SDK); and \<^verbatim>\<open>status_code\<close>, \<^verbatim>\<open>response_body\<close> and
  \<^verbatim>\<open>last_error\<close> are \<^verbatim>\<open>None\<close> when the constructor is not given them.
\<close>

theorem sdk_errors_share_base:
  "issubclass TansiveConnectionError_class TansiveError_class \<and>
   issubclass TansiveTimeoutError_class TansiveError_class \<and>
   issubclass TansiveAPIError_class TansiveError_class \<and>
   issubclass TansiveRetryError_class TansiveError_class \<and>
   issubclass TansiveValidationError_class TansiveError_class \<and>
   isinstance (TansiveConnectionError m1) TansiveError_class \<and>
   isinstance (TansiveTimeoutError m2) TansiveError_class \<and>
   isinstance (TansiveAPIError m3 sc rb) TansiveError_class \<and>
   isinstance (TansiveRetryError m4 le) TansiveError_class \<and>
   isinstance (TansiveValidationError m5) TansiveError_class \<and>
   isinstance (TansiveError m6) TansiveError_class \<and>
   \<not> isinstance (Exception m7) TansiveError_class \<and>
   status_code (TansiveAPIError_init m8 Omitted Omitted) = None \<and>
   response_body (TansiveAPIError_init m8 Omitted Omitted) = None \<and>
   status_code (TansiveAPIError_init m8 (Given sc) Omitted) = sc \<and>
   response_body (TansiveAPIError_init m8 (Given sc) Omitted) = None \<and>
   status_code (TansiveAPIError_init m8 Omitted (Given rb)) = None \<and>
   last_error (TansiveRetryError_init m9 Omitted) = None"
  by (simp add: issubclass_def isinstance_def mro_sdk TansiveAPIError_init_def
        TansiveRetryError_init_def)

section \<open>Properties of the skill invoker\<close>

text \<open>
  C6: whatever the retry configuration, an invocation whose argument payload does not
  parse against the tool's schema raises \<^verbatim>\<open>TansiveValidationError\<close> before any
  network attempt: it is one invocation attempt, with no call of the execution surface
  and no retry.
\<close>

theorem validation_before_network:
  assumes "\<not> schema_accepts t (arguments (func call))"
  shows "(\<exists>m. result (invoke cfg t call) = Inl (TansiveValidationError m)) \<and>
         attempts (invoke cfg t call) = 1 \<and>
         network_attempts (invoke cfg t call) = 0 \<and>
         sleeps (invoke cfg t call) = []"
  using assms by (simp add: invoke_def)

theorem validation_before_network_witness:
  "\<not> schema_accepts (constant_tool (Inr ''sunny'')) (arguments (func cut_call)) \<and>
   (\<exists>m. result (invoke (retry_double 5 {Connection, Timeout, APIStatus5xx})
                  (constant_tool (Inr ''sunny'')) cut_call) = Inl (TansiveValidationError m)) \<and>
   attempts (invoke (retry_double 5 {Connection, Timeout, APIStatus5xx})
                  (constant_tool (Inr ''sunny'')) cut_call) = 1 \<and>
   network_attempts (invoke (retry_double 5 {Connection, Timeout, APIStatus5xx})
                  (constant_tool (Inr ''sunny'')) cut_call) = 0 \<and>
   sleeps (invoke (retry_double 5 {Connection, Timeout, APIStatus5xx})
                  (constant_tool (Inr ''sunny'')) cut_call) = []"
proof -
  have a: "\<not> schema_accepts (constant_tool (Inr ''sunny'')) (arguments (func cut_call))"
    by (simp add: constant_tool_def loads_double_def cut_call_def
          sf_arguments_def paris_arguments_def cut_arguments_def)
  from a validation_before_network [OF a] show ?thesis by blast
qed

lemma attempt_loop_retry:
  assumes "execute t k (perAttemptTimeout cfg) (arguments (func call)) = Inl f"
    and "retryable cfg (classify f)" and "k < maxAttempts cfg"
  shows "attempt_loop cfg t call k slept =
         attempt_loop cfg t call (Suc k) (slept @ [backoff cfg k])"
  using assms by (subst attempt_loop.simps) simp

lemma attempt_loop_exhausted:
  assumes "execute t k (perAttemptTimeout cfg) (arguments (func call)) = Inl f"
    and "retryable cfg (classify f)" and "\<not> k < maxAttempts cfg"
  shows "attempt_loop cfg t call k slept =
         \<lparr>result = Inl (TansiveRetryError_init ''retries exhausted'' (Given (Some (classify f)))),
          attempts = k, network_attempts = k, sleeps = slept\<rparr>"
  using assms by (subst attempt_loop.simps) simp

lemma attempt_loop_raise:
  assumes "execute t k (perAttemptTimeout cfg) (arguments (func call)) = Inl f"
    and "\<not> retryable cfg (classify f)"
  shows "attempt_loop cfg t call k slept =
         \<lparr>result = Inl (classify f), attempts = k, network_attempts = k, sleeps = slept\<rparr>"
  using assms by (subst attempt_loop.simps) simp

lemma attempt_loop_skip:
  assumes "k \<le> n" and "n \<le> max k (maxAttempts cfg)"
    and "\<forall>j. k \<le> j \<and> j < n \<longrightarrow>
           (\<exists>f. execute t j (perAttemptTimeout cfg) (arguments (func call)) = Inl f \<and>
                retryable cfg (classify f))"
  shows "attempt_loop cfg t call k slept =
         attempt_loop cfg t call n (slept @ map (backoff cfg) [k..<n])"
  using assms
proof (induction n rule: dec_induct)
  case base
  show ?case by simp
next
  case (step n)
  from step.prems step.hyps have le: "n \<le> max k (maxAttempts cfg)" and lt: "n < maxAttempts cfg"
    by auto
  from step.prems(2) step.hyps obtain f where
    f: "execute t n (perAttemptTimeout cfg) (arguments (func call)) = Inl f"
       "retryable cfg (classify f)"
    by auto
  have "attempt_loop cfg t call k slept =
        attempt_loop cfg t call n (slept @ map (backoff cfg) [k..<n])"
    using step.IH le step.prems(2) by simp
  also have "\<dots> = attempt_loop cfg t call (Suc n) ((slept @ map (backoff cfg) [k..<n]) @ [backoff cfg n])"
    using f lt by (rule attempt_loop_retry)
  finally show ?case using step.hyps by simp
qed

lemma client_error_not_retryable:
  "400 \<le> code \<Longrightarrow> code \<le> 499 \<Longrightarrow> \<not> retryable cfg (classify (ErrorStatus m code body))"
  by (simp add: retryable_def TansiveAPIError_init_def)

text \<open>
  C8 says that an invocation that fails with a 4xx API error makes exactly one attempt.
  With \<^verbatim>\<open>retryableKinds\<close> holding Timeout, a first attempt that times out is
  retried, and when the second attempt is answered with status 404 the invocation fails
  with that API error after two attempts.
\<close>

theorem client_error_counterexample:
  "invoke (retry_double 3 {Timeout})
     (scripted_tool [Inl (DeadlineExceeded ''deadline exceeded''),
                     Inl (ErrorStatus ''not found'' 404 ''{}'')] (Inr ''sunny'')) sf_call =
   \<lparr>result = Inl (TansiveAPIError ''not found'' (Some 404) (Some ''{}'')),
    attempts = 2, network_attempts = 2, sleeps = [1]\<rparr>"
  by (simp add: invoke_def attempt_loop.simps scripted_tool_def retry_double_def retryable_def
        backoff_def TansiveAPIError_init_def loads_double_def sf_call_def)

text \<open>
  C8, amended: an attempt that fails with an API error whose status code is 4xx is
  never retried, whatever the configuration allows. If the attempts before it failed
  with retryable failures and it is the \<open>k\<close>-th attempt, the invocation ends with
  \<open>k\<close> attempts and raises \<^verbatim>\<open>TansiveAPIError\<close> with the status code and the
  response body of that answer; what later attempts would give does not matter. When the
  4xx answers the first attempt, exactly one attempt is made.
\<close>

theorem client_error_not_retried:
  assumes "schema_accepts t (arguments (func call))"
    and "1 \<le> k" and "k \<le> max 1 (maxAttempts cfg)"
    and "\<forall>j. 1 \<le> j \<and> j < k \<longrightarrow>
           (\<exists>f. execute t j (perAttemptTimeout cfg) (arguments (func call)) = Inl f \<and>
                retryable cfg (classify f))"
    and "execute t k (perAttemptTimeout cfg) (arguments (func call)) =
           Inl (ErrorStatus m code body)"
    and "400 \<le> code" and "code \<le> 499"
  shows "\<exists>err.
     result (invoke cfg t call) = Inl err \<and>
     isinstance err TansiveAPIError_class \<and>
     status_code err = Some code \<and>
     response_body err = Some body \<and>
     attempts (invoke cfg t call) = k \<and>
     network_attempts (invoke cfg t call) = k \<and>
     sleeps (invoke cfg t call) = map (backoff cfg) [1..<k]"
proof -
  have "attempt_loop cfg t call 1 [] = attempt_loop cfg t call k ([] @ map (backoff cfg) [1..<k])"
    using assms(2,3,4) by (intro attempt_loop_skip) auto
  also have "\<dots> =
       \<lparr>result = Inl (classify (ErrorStatus m code body)),
        attempts = k, network_attempts = k, sleeps = [] @ map (backoff cfg) [1..<k]\<rparr>"
    using assms(5) client_error_not_retryable [OF assms(6,7)] by (intro attempt_loop_raise) auto
  finally have "invoke cfg t call =
       \<lparr>result = Inl (classify (ErrorStatus m code body)),
        attempts = k, network_attempts = k, sleeps = map (backoff cfg) [1..<k]\<rparr>"
    using assms(1) by (simp add: invoke_def)
  then show ?thesis
    by (intro exI[of _ "classify (ErrorStatus m code body)"])
       (simp add: TansiveAPIError_init_def isinstance_def issubclass_def mro.simps)
qed

theorem client_error_not_retried_witness:
  "schema_accepts
     (scripted_tool [Inl (ErrorStatus ''not found'' 404 ''{}'')] (Inr ''sunny''))
     (arguments (func sf_call)) \<and>
   execute (scripted_tool [Inl (ErrorStatus ''not found'' 404 ''{}'')] (Inr ''sunny'')) 2
     (perAttemptTimeout (retry_double 5 {Connection, Timeout, APIStatus5xx}))
     (arguments (func sf_call)) = Inr ''sunny'' \<and>
   (\<exists>err.
     result (invoke (retry_double 5 {Connection, Timeout, APIStatus5xx})
       (scripted_tool [Inl (ErrorStatus ''not found'' 404 ''{}'')] (Inr ''sunny'')) sf_call) = Inl err \<and>
     isinstance err TansiveAPIError_class \<and>
     status_code err = Some 404 \<and>
     response_body err = Some ''{}'') \<and>
   attempts (invoke (retry_double 5 {Connection, Timeout, APIStatus5xx})
       (scripted_tool [Inl (ErrorStatus ''not found'' 404 ''{}'')] (Inr ''sunny'')) sf_call) = 1 \<and>
   network_attempts (invoke (retry_double 5 {Connection, Timeout, APIStatus5xx})
       (scripted_tool [Inl (ErrorStatus ''not found'' 404 ''{}'')] (Inr ''sunny'')) sf_call) = 1 \<and>
   sleeps (invoke (retry_double 5 {Connection, Timeout, APIStatus5xx})
       (scripted_tool [Inl (ErrorStatus ''not found'' 404 ''{}'')] (Inr ''sunny'')) sf_call) = []"
proof -
  let ?t = "scripted_tool [Inl (ErrorStatus ''not found'' 404 ''{}'')] (Inr ''sunny'')"
  let ?cfg = "retry_double 5 {Connection, Timeout, APIStatus5xx}"
  have a: "schema_accepts ?t (arguments (func sf_call))"
    by (simp add: scripted_tool_def loads_double_def sf_call_def)
  have b: "(1::nat) \<le> 1"
    by simp
  have c: "1 \<le> max 1 (maxAttempts ?cfg)"
    by simp
  have d: "\<forall>j. 1 \<le> j \<and> j < 1 \<longrightarrow>
           (\<exists>f. execute ?t j (perAttemptTimeout ?cfg) (arguments (func sf_call)) = Inl f \<and>
                retryable ?cfg (classify f))"
    by simp
  have e: "execute ?t 1 (perAttemptTimeout ?cfg) (arguments (func sf_call)) =
      Inl (ErrorStatus ''not found'' 404 ''{}'')"
    by (simp add: scripted_tool_def)
  have f: "(400::int) \<le> 404" and g: "(404::int) \<le> 499"
    by simp_all
  have later: "execute ?t 2 (perAttemptTimeout ?cfg) (arguments (func sf_call)) = Inr ''sunny''"
    by (simp add: scripted_tool_def)
  from a later client_error_not_retried [OF a b c d e f g] show ?thesis
    by auto
qed

text \<open>
  C7: when every attempt up to \<^verbatim>\<open>maxAttempts\<close> fails with a failure the
  configuration allows to retry, the invoker makes \<^verbatim>\<open>maxAttempts\<close> attempts,
  sleeps between them, and raises \<^verbatim>\<open>TansiveRetryError\<close> whose
  \<^verbatim>\<open>last_error\<close> is the classified failure of the last attempt; what further
  attempts would give does not matter. (The first attempt is always made, so a
  configuration with \<^verbatim>\<open>maxAttempts\<close> 0 behaves as one with 1.) In the witness the
  tool times out three times and would succeed on a fourth attempt.
\<close>

theorem retries_exhausted:
  assumes "schema_accepts t (arguments (func call))"
    and "\<forall>k. 1 \<le> k \<and> k \<le> max 1 (maxAttempts cfg) \<longrightarrow>
           (\<exists>f. execute t k (perAttemptTimeout cfg) (arguments (func call)) = Inl f \<and>
                retryable cfg (classify f))"
  shows "\<exists>f err.
     execute t (max 1 (maxAttempts cfg)) (perAttemptTimeout cfg) (arguments (func call)) = Inl f \<and>
     result (invoke cfg t call) = Inl err \<and>
     isinstance err TansiveRetryError_class \<and>
     last_error err = Some (classify f) \<and>
     attempts (invoke cfg t call) = max 1 (maxAttempts cfg) \<and>
     network_attempts (invoke cfg t call) = max 1 (maxAttempts cfg) \<and>
     sleeps (invoke cfg t call) = map (backoff cfg) [1..<max 1 (maxAttempts cfg)] \<and>
     (1 \<le> maxAttempts cfg \<longrightarrow> attempts (invoke cfg t call) = maxAttempts cfg)"
proof -
  let ?n = "max 1 (maxAttempts cfg)"
  have "1 \<le> ?n \<and> ?n \<le> max 1 (maxAttempts cfg)"
    by simp
  with assms(2) obtain f where
    f: "execute t ?n (perAttemptTimeout cfg) (arguments (func call)) = Inl f"
       "retryable cfg (classify f)"
    by blast
  have "attempt_loop cfg t call 1 [] = attempt_loop cfg t call ?n ([] @ map (backoff cfg) [1..<?n])"
    using assms(2) by (intro attempt_loop_skip) auto
  also have "\<dots> =
       \<lparr>result = Inl (TansiveRetryError_init ''retries exhausted'' (Given (Some (classify f)))),
        attempts = ?n, network_attempts = ?n, sleeps = [] @ map (backoff cfg) [1..<?n]\<rparr>"
    using f by (intro attempt_loop_exhausted) auto
  finally have "invoke cfg t call =
       \<lparr>result = Inl (TansiveRetryError_init ''retries exhausted'' (Given (Some (classify f)))),
        attempts = ?n, network_attempts = ?n, sleeps = map (backoff cfg) [1..<?n]\<rparr>"
    using assms(1) by (simp add: invoke_def)
  with f(1) show ?thesis
    by (intro exI[of _ f] exI[of _ "TansiveRetryError_init ''retries exhausted'' (Given (Some (classify f)))"])
       (simp add: TansiveRetryError_init_def isinstance_def issubclass_def mro.simps)
qed

theorem retries_exhausted_witness:
  "schema_accepts
     (scripted_tool [Inl (DeadlineExceeded ''deadline exceeded''),
                     Inl (DeadlineExceeded ''deadline exceeded''),
                     Inl (DeadlineExceeded ''deadline exceeded'')] (Inr ''sunny''))
     (arguments (func sf_call)) \<and>
   retryable (retry_double 3 {Timeout}) (classify (DeadlineExceeded ''deadline exceeded'')) \<and>
   (\<exists>err.
     result (invoke (retry_double 3 {Timeout})
       (scripted_tool [Inl (DeadlineExceeded ''deadline exceeded''),
                       Inl (DeadlineExceeded ''deadline exceeded''),
                       Inl (DeadlineExceeded ''deadline exceeded'')] (Inr ''sunny'')) sf_call) = Inl err \<and>
     isinstance err TansiveRetryError_class \<and>
     last_error err = Some (TansiveTimeoutError ''deadline exceeded'')) \<and>
   attempts (invoke (retry_double 3 {Timeout})
       (scripted_tool [Inl (DeadlineExceeded ''deadline exceeded''),
                       Inl (DeadlineExceeded ''deadline exceeded''),
                       Inl (DeadlineExceeded ''deadline exceeded'')] (Inr ''sunny'')) sf_call) = 3 \<and>
   network_attempts (invoke (retry_double 3 {Timeout})
       (scripted_tool [Inl (DeadlineExceeded ''deadline exceeded''),
                       Inl (DeadlineExceeded ''deadline exceeded''),
                       Inl (DeadlineExceeded ''deadline exceeded'')] (Inr ''sunny'')) sf_call) = 3 \<and>
   sleeps (invoke (retry_double 3 {Timeout})
       (scripted_tool [Inl (DeadlineExceeded ''deadline exceeded''),
                       Inl (DeadlineExceeded ''deadline exceeded''),
                       Inl (DeadlineExceeded ''deadline exceeded'')] (Inr ''sunny'')) sf_call) = [1, 2]"
proof -
  let ?t = "scripted_tool [Inl (DeadlineExceeded ''deadline exceeded''),
                     Inl (DeadlineExceeded ''deadline exceeded''),
                     Inl (DeadlineExceeded ''deadline exceeded'')] (Inr ''sunny'')"
  let ?cfg = "retry_double 3 {Timeout}"
  have a: "schema_accepts ?t (arguments (func sf_call))"
    by (simp add: scripted_tool_def loads_double_def sf_call_def)
  have r: "retryable ?cfg (classify (DeadlineExceeded ''deadline exceeded''))"
    by (simp add: retryable_def retry_double_def)
  have n: "max 1 (maxAttempts ?cfg) = 3"
    by (simp add: retry_double_def)
  have "execute ?t k (perAttemptTimeout ?cfg) (arguments (func sf_call)) =
          Inl (DeadlineExceeded ''deadline exceeded'')" if "1 \<le> k" "k \<le> 3" for k
  proof -
    from that have "k = 1 \<or> k = 2 \<or> k = 3" by arith
    then show ?thesis by (auto simp: scripted_tool_def)
  qed
  with r n have b: "\<forall>k. 1 \<le> k \<and> k \<le> max 1 (maxAttempts ?cfg) \<longrightarrow>
           (\<exists>f. execute ?t k (perAttemptTimeout ?cfg) (arguments (func sf_call)) = Inl f \<and>
                retryable ?cfg (classify f))"
    by simp
  have u: "[Suc 0..<3] = [Suc 0, 2]"
    by (simp add: upt_rec)
  have e3: "execute ?t 3 (perAttemptTimeout ?cfg) (arguments (func sf_call)) =
          Inl (DeadlineExceeded ''deadline exceeded'')"
    by (simp add: scripted_tool_def)
  from retries_exhausted [OF a b] obtain f err where
    x: "execute ?t (max 1 (maxAttempts ?cfg)) (perAttemptTimeout ?cfg) (arguments (func sf_call)) = Inl f"
    and y: "result (invoke ?cfg ?t sf_call) = Inl err"
      "isinstance err TansiveRetryError_class"
      "last_error err = Some (classify f)"
      "attempts (invoke ?cfg ?t sf_call) = max 1 (maxAttempts ?cfg)"
      "network_attempts (invoke ?cfg ?t sf_call) = max 1 (maxAttempts ?cfg)"
      "sleeps (invoke ?cfg ?t sf_call) = map (backoff ?cfg) [1..<max 1 (maxAttempts ?cfg)]"
    by blast
  from x e3 have "f = DeadlineExceeded ''deadline exceeded''"
    unfolding n by simp
  then have "classify f = TansiveTimeoutError ''deadline exceeded''"
    by simp
  with y n have "(\<exists>err. result (invoke ?cfg ?t sf_call) = Inl err \<and>
       isinstance err TansiveRetryError_class \<and>
       last_error err = Some (TansiveTimeoutError ''deadline exceeded'')) \<and>
     attempts (invoke ?cfg ?t sf_call) = 3 \<and>
     network_attempts (invoke ?cfg ?t sf_call) = 3 \<and>
     sleeps (invoke ?cfg ?t sf_call) = [1, 2]"
    by (simp add: retry_double_def backoff_def u)
  with a r show ?thesis by blast
qed

end
